theory Spec2Isabelle
  imports Complex_Main "HOL-Library.Signed_Division" "HOL-Library.Multiset"
begin

section \<open>Common types\<close>

text \<open>
  The error constants of the server file.  Go's \<open>Error\<close> is a string type; the
  constants are the only values the modelled functions return, plus \<open>ErrOther\<close> for the
  ad-hoc \<open>Error("...")\<close> values of the later server and of the datastore and for errors
  of the operating system.
\<close>

datatype error =
    ErrNoName | ErrNoType | ErrNoValue | ErrNoSampling
  | ErrNameInvalid | ErrTypeInvalid | ErrValueInvalid | ErrSamplingInvalid
  | ErrNoData | ErrChannelInvalid | ErrMixingTypes | ErrInvalid
  | ErrNoChannels | ErrNonunique | ErrOther string

text \<open>
  The outcome of a Go call that may return normally, return an error, or panic
  (index out of range, nil dereference, negative \<open>make\<close>).
\<close>

datatype 'a outcome = Return 'a | Fail error | Panic

text \<open>
  \<open>float64\<close>: finite values are modelled by the reals (exact arithmetic, no rounding,
  no infinities); \<open>NaN\<close> is the value of \<open>math.NaN()\<close>, which the code only ever
  stores into result vectors and channel defaults.
\<close>

datatype float64 = NaN | Fin real

text \<open>The metric kinds; \<open>MetricType(-1)\<close>, the "no type" sentinel of the parser, is \<open>None\<close>.\<close>

datatype MetricType = Counter | Gauge | Avg | Timer

record Metric =
  Name :: string
  Type :: MetricType
  Value :: real
  SampleRate :: real

text \<open>Go's integer division and remainder truncate towards zero.\<close>

abbreviation go_div :: "int \<Rightarrow> int \<Rightarrow> int" where
  "go_div a b \<equiv> a sdiv b"

abbreviation go_mod :: "int \<Rightarrow> int \<Rightarrow> int" where
  "go_mod a b \<equiv> a smod b"

section \<open>The parser (ParseMetric)\<close>

text \<open>Checked slice operations: Go panics when a bound is out of range.\<close>

definition slice_to :: "'a list \<Rightarrow> int \<Rightarrow> 'a list option" where
  "slice_to m n = (if 0 \<le> n \<and> n \<le> int (length m) then Some (take (nat n) m) else None)"

definition slice_from :: "'a list \<Rightarrow> int \<Rightarrow> 'a list option" where
  "slice_from m n = (if 0 \<le> n \<and> n \<le> int (length m) then Some (drop (nat n) m) else None)"

definition at_index :: "'a list \<Rightarrow> int \<Rightarrow> 'a option" where
  "at_index m i = (if 0 \<le> i \<and> i < int (length m) then Some (m ! nat i) else None)"

text \<open>
  The first loop of \<open>ParseMetric\<close>: the index of the first \<open>':'\<close>, \<open>-1\<close> when there is
  none, or \<open>ErrNameInvalid\<close> when a \<open>'/'\<close> or a NUL byte comes first.
\<close>

fun scanName :: "string \<Rightarrow> int \<Rightarrow> error + int" where
  "scanName [] i = Inr (- 1)"
| "scanName (ch # r) i =
     (if ch = CHR '':'' then Inr i
      else if ch = CHR ''/'' \<or> ch = CHR 0x00 then Inl ErrNameInvalid
      else scanName r (i + 1))"

text \<open>The second and third loops: the index of the first \<open>'|'\<close>, or \<open>-1\<close>.\<close>

fun scanBar :: "string \<Rightarrow> int \<Rightarrow> int" where
  "scanBar [] i = - 1"
| "scanBar (ch # r) i = (if ch = CHR ''|'' then i else scanBar r (i + 1))"

text \<open>The type switch; \<open>n\<close> is the length of the type field.\<close>

definition parseType :: "string \<Rightarrow> int \<Rightarrow> MetricType option outcome" where
  "parseType m n =
     (if n = 1 then
        (case at_index m 0 of None \<Rightarrow> Panic
         | Some c \<Rightarrow> Return (if c = CHR ''c'' then Some Counter
                             else if c = CHR ''g'' then Some Gauge
                             else if c = CHR ''a'' then Some Avg
                             else None))
      else if n = 2 then
        (case at_index m 0 of None \<Rightarrow> Panic
         | Some c0 \<Rightarrow>
             if c0 = CHR ''m'' then
               (case at_index m 1 of None \<Rightarrow> Panic
                | Some c1 \<Rightarrow> Return (if c1 = CHR ''s'' then Some Timer else None))
             else Return None)
      else Return None)"

text \<open>The sample-rate part, after the type has been accepted.\<close>

definition parseRate :: "(string \<Rightarrow> real option) \<Rightarrow> string \<Rightarrow> int \<Rightarrow> real outcome" where
  "parseRate pf m n =
     (if n \<noteq> int (length m) then
        (if n = int (length m) - 1 then Fail ErrNoSampling
         else case at_index m (n + 1) of None \<Rightarrow> Panic
           | Some c \<Rightarrow>
               if c \<noteq> CHR ''@'' then Fail ErrSamplingInvalid
               else (case slice_from m (n + 2) of None \<Rightarrow> Panic
                 | Some r \<Rightarrow>
                     (case pf r of None \<Rightarrow> Fail ErrSamplingInvalid
                      | Some s \<Rightarrow> if s \<le> 0 then Fail ErrSamplingInvalid else Return s)))
      else Return 1)"

text \<open>The third stage: \<open>m\<close> is what follows the \<open>'|'\<close> that ends the value.\<close>

definition parseTail :: "(string \<Rightarrow> real option) \<Rightarrow> string \<Rightarrow> real \<Rightarrow> string \<Rightarrow> Metric outcome" where
  "parseTail pf name v m =
     (let n0 = scanBar m 0; n = (if n0 = - 1 then int (length m) else n0)
      in case parseType m n of Panic \<Rightarrow> Panic | Fail e \<Rightarrow> Fail e
         | Return None \<Rightarrow> Fail ErrTypeInvalid
         | Return (Some typ) \<Rightarrow>
             (case parseRate pf m n of Panic \<Rightarrow> Panic | Fail e \<Rightarrow> Fail e
              | Return sr \<Rightarrow> Return \<lparr>Name = name, Type = typ, Value = v, SampleRate = sr\<rparr>))"

text \<open>The second stage: \<open>m\<close> is what follows the \<open>':'\<close> that ends the name.\<close>

definition parseValue :: "(string \<Rightarrow> real option) \<Rightarrow> string \<Rightarrow> string \<Rightarrow> Metric outcome" where
  "parseValue pf name m =
     (let n = scanBar m 0
      in if n = 0 then Fail ErrNoValue
         else if n = - 1 \<or> n = int (length m) - 1 then Fail ErrNoType
         else case slice_to m n of None \<Rightarrow> Panic
           | Some vs \<Rightarrow>
               (case pf vs of None \<Rightarrow> Fail ErrValueInvalid
                | Some v \<Rightarrow>
                    (case slice_from m (n + 1) of None \<Rightarrow> Panic
                     | Some m' \<Rightarrow> parseTail pf name v m')))"

text \<open>
  \<open>ParseMetric\<close>.  \<open>pf\<close> stands for \<open>strconv.ParseFloat(_, 64)\<close> of the Go library:
  \<open>None\<close> is its error result.
\<close>

definition ParseMetric :: "(string \<Rightarrow> real option) \<Rightarrow> string \<Rightarrow> Metric outcome" where
  "ParseMetric pf m =
     (if length m = 0 then Fail ErrNoName
      else case scanName m 0 of Inl e \<Rightarrow> Fail e
        | Inr n \<Rightarrow>
            if n = 0 then Fail ErrNoName
            else if n = - 1 \<or> n = int (length m) - 1 then Fail ErrNoValue
            else case slice_to m n of None \<Rightarrow> Panic
              | Some name \<Rightarrow>
                  (case slice_from m (n + 1) of None \<Rightarrow> Panic
                   | Some m' \<Rightarrow> parseValue pf name m'))"

text \<open>
  A decimal reader used where a concrete \<open>ParseFloat\<close> is needed to run the parser:
  it accepts \<open>digits\<close>, \<open>digits.digits\<close>, \<open>digits.\<close> and \<open>.digits\<close>, on which it agrees
  with \<open>strconv.ParseFloat\<close>, and rejects everything else.
\<close>

fun digitsVal :: "string \<Rightarrow> nat \<Rightarrow> nat option" where
  "digitsVal [] acc = Some acc"
| "digitsVal (c # r) acc =
     (if 48 \<le> (of_char c :: nat) \<and> (of_char c :: nat) \<le> 57
      then digitsVal r (10 * acc + ((of_char c :: nat) - 48)) else None)"

definition parseDecimal :: "string \<Rightarrow> real option" where
  "parseDecimal s =
     (let ip = takeWhile (\<lambda>c. c \<noteq> CHR ''.'') s; rest = dropWhile (\<lambda>c. c \<noteq> CHR ''.'') s
      in case digitsVal ip 0 of None \<Rightarrow> None
         | Some a \<Rightarrow>
             if rest = [] then (if ip = [] then None else Some (real a))
             else (case digitsVal (tl rest) 0 of None \<Rightarrow> None
               | Some b \<Rightarrow>
                   if ip = [] \<and> tl rest = [] then None
                   else Some (real a + real b / 10 ^ length (tl rest))))"

text \<open>The parse errors, and the wire names of the metric kinds.\<close>

definition isParseError :: "error \<Rightarrow> bool" where
  "isParseError e = (e \<in> {ErrNoName, ErrNoType, ErrNoValue, ErrNoSampling,
                          ErrNameInvalid, ErrTypeInvalid, ErrValueInvalid, ErrSamplingInvalid})"

definition wireType :: "string \<Rightarrow> MetricType option" where
  "wireType s = (if s = ''c'' then Some Counter else if s = ''g'' then Some Gauge
                 else if s = ''a'' then Some Avg else if s = ''ms'' then Some Timer else None)"

section \<open>The server (entries, LiveLog, Log, Watch)\<close>

text \<open>
  A datastore record \<open>Record{Ts, Value}\<close>, and the two read operations of the
  \<open>Datastore\<close> interface the server calls.  The server is modelled against the
  interface; every call is also written to a log of datastore calls, so that a claim
  about which operations reach the datastore can be stated.
\<close>

type_synonym Record = "int \<times> float64"

datatype dscall = DsLatestBefore string int | DsQuery string int int

record Datastore =
  ds_LatestBefore :: "string \<Rightarrow> int \<Rightarrow> error + Record"
  ds_Query :: "string \<Rightarrow> int \<Rightarrow> int \<Rightarrow> error + Record list"

text \<open>
  The registry of metric kinds is not among the source files; it is a parameter.  One
  kind is the list of its channels, each with its name, its default and its persist
  flag (\<open>channels[i]\<close>, \<open>defaults[i]\<close>, \<open>persist[i]\<close> of the code).
\<close>

record channel =
  ch_name :: string
  ch_default :: float64
  ch_persist :: bool

text \<open>
  The aggregator of a kind for a set of channels (\<open>channels\<close>, \<open>init\<close>, \<open>put\<close>, \<open>get\<close>),
  with its state made explicit.
\<close>

record 's aggregator =
  aggr_channels :: "int list"
  aggr_init :: "float64 list \<Rightarrow> 's"
  aggr_put :: "'s \<Rightarrow> float64 list \<Rightarrow> 's"
  aggr_get :: "'s \<Rightarrow> float64 list \<times> 's"

text \<open>The functions the server calls whose code is not among the source files.\<close>

record 's registry =
  metricTypes :: "MetricType \<Rightarrow> channel list"
  metricTypeByChannels :: "string list \<Rightarrow> error + MetricType"
  getChannelIndex :: "MetricType \<Rightarrow> string \<Rightarrow> int"
  CheckMetricName :: "string \<Rightarrow> error option"
  newAggregator :: "MetricType \<Rightarrow> string list \<Rightarrow> 's aggregator"

text \<open>
  \<open>Watcher\<close>, without its channels and its goroutine: \<open>w_aggr\<close> is the state of its
  aggregator, \<open>None\<close> for the nil aggregator of a live watcher.
\<close>

record 's Watcher =
  w_Ts :: int
  w_chs :: "int list"
  w_aggr :: "'s option"
  w_gran :: int
  w_offs :: int

text \<open>
  \<open>metricEntry\<close>.  The embedded state of the metric kind is left out: none of the
  operations below reads it.  \<open>liveLog\<close> holds one ring per channel.
\<close>

record 's metricEntry =
  me_type :: MetricType
  me_name :: string
  recvdInput :: bool
  recvdInputTick :: bool
  idleTicks :: int
  liveLog :: "float64 list list"
  livePtr :: int
  lastTick :: int
  watchers :: "'s Watcher list"

record 's Server =
  Ds :: Datastore
  Prefix :: string
  metrics :: "MetricType \<Rightarrow> string \<rightharpoonup> 's metricEntry"
  running :: bool
  stopping :: bool
  srvLastTick :: int

definition LiveLogSize :: int where
  "LiveLogSize = 600"

text \<open>
  \<open>getChannelDefault\<close>, for the channel descriptor \<open>c\<close> of index \<open>i\<close>: the static
  default, or the value of the latest stored record for a persisted channel.
\<close>

definition channelDefault :: "'s Server \<Rightarrow> string \<Rightarrow> channel \<Rightarrow> int \<Rightarrow> float64 \<times> dscall list" where
  "channelDefault srv name c ts =
     (if ch_persist c then
        (let key = Prefix srv @ name @ '':'' @ ch_name c
         in case ds_LatestBefore (Ds srv) key ts of
              Inr r \<Rightarrow> (snd r, [DsLatestBefore key ts])
            | Inl e \<Rightarrow> (ch_default c, [DsLatestBefore key ts]))
      else (ch_default c, []))"

definition getChannelDefault ::
  "'s registry \<Rightarrow> 's Server \<Rightarrow> MetricType \<Rightarrow> string \<Rightarrow> int \<Rightarrow> int \<Rightarrow> (float64 \<times> dscall list) option" where
  "getChannelDefault reg srv ty name i ts =
     (case at_index (metricTypes reg ty) i of None \<Rightarrow> None
      | Some c \<Rightarrow> Some (channelDefault srv name c ts))"

text \<open>\<open>createMetricEntry\<close>: every ring is filled with the default of its channel.\<close>

definition createMetricEntry ::
  "'s registry \<Rightarrow> 's Server \<Rightarrow> MetricType \<Rightarrow> string \<Rightarrow> 's metricEntry \<times> dscall list" where
  "createMetricEntry reg srv ty name =
     (let defs = map (\<lambda>c. channelDefault srv name c (srvLastTick srv)) (metricTypes reg ty)
      in (\<lparr>me_type = ty, me_name = name, recvdInput = False, recvdInputTick = False,
           idleTicks = 0,
           liveLog = map (\<lambda>d. replicate (nat LiveLogSize) (fst d)) defs,
           livePtr = 0, lastTick = srvLastTick srv, watchers = []\<rparr>,
          concat (map snd defs)))"

text \<open>\<open>getMetricEntry\<close>: the entry, the server with the entry in its table, the calls.\<close>

definition getMetricEntry ::
  "'s registry \<Rightarrow> 's Server \<Rightarrow> MetricType \<Rightarrow> string \<Rightarrow> error + ('s metricEntry \<times> 's Server \<times> dscall list)" where
  "getMetricEntry reg srv ty name =
     (case CheckMetricName reg name of Some e \<Rightarrow> Inl e
      | None \<Rightarrow>
          if \<not> running srv then Inl (ErrOther ''Server not running'')
          else (case metrics srv ty name of
                  Some me \<Rightarrow> Inr (me, srv, [])
                | None \<Rightarrow>
                    (let (me, calls) = createMetricEntry reg srv ty name
                     in Inr (me, srv\<lparr>metrics := (metrics srv)(ty := (metrics srv ty)(name \<mapsto> me))\<rparr>,
                             calls))))"

text \<open>
  \<open>updateLiveLog\<close>, the part that writes the ring: \<open>data\<close> is the vector returned by
  the kind's \<open>tick\<close>.  A channel the vector has no value for, or a cursor outside
  the ring, is a panic (\<open>None\<close>).  The sends to the live watchers are left out.
\<close>

definition updateLiveLog :: "'s metricEntry \<Rightarrow> int \<Rightarrow> float64 list \<Rightarrow> 's metricEntry option" where
  "updateLiveLog me ts data =
     (if length data < length (liveLog me) \<or> livePtr me < 0 \<or> LiveLogSize \<le> livePtr me
         \<or> list_ex (\<lambda>l. int (length l) \<le> livePtr me) (liveLog me)
      then None
      else Some (me\<lparr>liveLog := map (\<lambda>(l, d). l[nat (livePtr me) := d]) (zip (liveLog me) data),
                   livePtr := go_mod (livePtr me + 1) LiveLogSize,
                   lastTick := ts\<rparr>))"

text \<open>
  The two copy loops of \<open>LiveLog\<close>: rows \<open>ptr .. 599\<close>, then rows \<open>0 .. ptr - 1\<close>.
  A read outside a ring is a panic (\<open>None\<close>).
\<close>

definition liveRows :: "float64 list list \<Rightarrow> int \<Rightarrow> float64 list list option" where
  "liveRows logs ptr =
     those (map (\<lambda>i. those (map (\<lambda>l. at_index l i) logs))
                ([ptr .. LiveLogSize - 1] @ [0 .. ptr - 1]))"

definition LiveLog ::
  "'s registry \<Rightarrow> 's Server \<Rightarrow> string \<Rightarrow> string list
     \<Rightarrow> (float64 list list \<times> int) outcome \<times> 's Server \<times> dscall list" where
  "LiveLog reg srv name chs =
     (case metricTypeByChannels reg chs of Inl e \<Rightarrow> (Fail e, srv, [])
      | Inr ty \<Rightarrow>
          (case getMetricEntry reg srv ty name of Inl e \<Rightarrow> (Fail e, srv, [])
           | Inr (me, srv', calls) \<Rightarrow>
               (case those (map (\<lambda>n. at_index (liveLog me) (getChannelIndex reg ty n)) chs) of
                  None \<Rightarrow> (Panic, srv', calls)
                | Some logs \<Rightarrow>
                    (case liveRows logs (livePtr me) of
                       None \<Rightarrow> (Panic, srv', calls)
                     | Some result \<Rightarrow> (Return (result, lastTick me - LiveLogSize), srv', calls)))))"

text \<open>
  \<open>initAggregator\<close>: one \<open>Query\<close> and one default per input channel of the
  aggregator, in order; the first failing query ends the loop.
\<close>

fun initAggregatorLoop ::
  "'s registry \<Rightarrow> 's Server \<Rightarrow> string \<Rightarrow> MetricType \<Rightarrow> int \<Rightarrow> int \<Rightarrow> int list
     \<Rightarrow> Record list list \<Rightarrow> float64 list \<Rightarrow> dscall list
     \<Rightarrow> (Record list list \<times> float64 list) outcome \<times> dscall list" where
  "initAggregatorLoop reg srv name ty from until [] input tmp calls = (Return (input, tmp), calls)"
| "initAggregatorLoop reg srv name ty from until (j # js) input tmp calls =
     (case at_index (metricTypes reg ty) j of None \<Rightarrow> (Panic, calls)
      | Some c \<Rightarrow>
          (let key = Prefix srv @ name @ '':'' @ ch_name c;
               calls1 = calls @ [DsQuery key (from + 60) until]
           in case ds_Query (Ds srv) key (from + 60) until of
                Inl e \<Rightarrow> (Fail e, calls1)
              | Inr inp \<Rightarrow>
                  (let (d, dcalls) = channelDefault srv name c from
                   in initAggregatorLoop reg srv name ty from until js
                        (input @ [inp]) (tmp @ [d]) (calls1 @ dcalls))))"

definition initAggregator ::
  "'s registry \<Rightarrow> 's Server \<Rightarrow> 's aggregator \<Rightarrow> string \<Rightarrow> MetricType \<Rightarrow> int \<Rightarrow> int
     \<Rightarrow> (Record list list \<times> 's) outcome \<times> dscall list" where
  "initAggregator reg srv aggr name ty from until =
     (case initAggregatorLoop reg srv name ty from until (aggr_channels aggr) [] [] [] of
        (Return (input, tmp), calls) \<Rightarrow> (Return (input, aggr_init aggr tmp), calls)
      | (Fail e, calls) \<Rightarrow> (Fail e, calls)
      | (Panic, calls) \<Rightarrow> (Panic, calls))"

text \<open>
  \<open>feedAggregator\<close>: for every minute of the window, drop the records before it
  from each input and put the minute into the aggregator when every input has a
  record exactly there.
\<close>

definition headAt :: "int \<Rightarrow> Record list \<Rightarrow> float64 option" where
  "headAt ts l = (case l of [] \<Rightarrow> None | r # _ \<Rightarrow> if fst r = ts then Some (snd r) else None)"

function feedAggregator ::
  "'s aggregator \<Rightarrow> 's \<Rightarrow> Record list list \<Rightarrow> int \<Rightarrow> int \<Rightarrow> int \<Rightarrow> 's \<times> Record list list" where
  "feedAggregator aggr st inp ts j gran =
     (if j < gran then
        (let ts' = ts + 60;
             inp' = map (dropWhile (\<lambda>r. fst r < ts')) inp;
             vals = map (headAt ts') inp';
             st' = (if None \<in> set vals then st else aggr_put aggr st (map the vals))
         in feedAggregator aggr st' inp' ts' (j + 60) gran)
      else (st, inp))"
  by pat_completeness auto
termination
  by (relation "measure (\<lambda>(aggr, st, inp, ts, j, gran). nat (gran - j))") auto

declare feedAggregator.simps [simp del]

text \<open>The output loop of \<open>Log\<close>: \<open>n\<close> rows, the window moving by \<open>gran\<close>.\<close>

fun logRows ::
  "'s aggregator \<Rightarrow> 's \<Rightarrow> Record list list \<Rightarrow> int \<Rightarrow> int \<Rightarrow> nat \<Rightarrow> float64 list list" where
  "logRows aggr st inp ts gran 0 = []"
| "logRows aggr st inp ts gran (Suc n) =
     (let (st1, inp1) = feedAggregator aggr st inp ts 0 gran;
          (row, st2) = aggr_get aggr st1
      in row # logRows aggr st2 inp1 (ts + gran) gran n)"

definition Log ::
  "'s registry \<Rightarrow> 's Server \<Rightarrow> string \<Rightarrow> string list \<Rightarrow> int \<Rightarrow> int \<Rightarrow> int
     \<Rightarrow> float64 list list outcome \<times> 's Server \<times> dscall list" where
  "Log reg srv name chs from len gran =
     (if go_mod from 60 \<noteq> 0 then (Fail (ErrOther ''From must be divisable by 60''), srv, [])
      else if gran < 1 then (Fail (ErrOther ''Granularity must be positive''), srv, [])
      else if go_mod gran 60 \<noteq> 0 then
        (Fail (ErrOther ''Granularity must be divisable by 60''), srv, [])
      else if len < 0 then (Fail (ErrOther ''Length must not be negative''), srv, [])
      else case metricTypeByChannels reg chs of Inl e \<Rightarrow> (Fail e, srv, [])
        | Inr ty \<Rightarrow>
            (case getMetricEntry reg srv ty name of Inl e \<Rightarrow> (Fail e, srv, [])
             | Inr (me, srv', calls) \<Rightarrow>
                 (let maxLength = go_div (lastTick me - from) gran;
                      len' = (if len > maxLength then maxLength else len)
                  in if len' \<le> 0 then (Return [], srv', calls)
                     else (let aggr = newAggregator reg ty chs
                           in case initAggregator reg srv' aggr name ty from (from + gran * len') of
                                (Fail e, icalls) \<Rightarrow> (Fail e, srv', calls @ icalls)
                              | (Panic, icalls) \<Rightarrow> (Panic, srv', calls @ icalls)
                              | (Return (input, st), icalls) \<Rightarrow>
                                  (Return (logRows aggr st input from gran (nat len')),
                                   srv', calls @ icalls)))))"


text \<open>
  The invariant of the rings of an entry (\<open>liveLog\<close> holds arrays of 600 values and
  \<open>livePtr\<close> is reduced modulo 600 after every step), the row \<open>k\<close> of the ring in
  chronological order for the channel indices \<open>idxs\<close>, and a channel set whose indices
  are channels of the kind.
\<close>

definition ringsOk :: "'s metricEntry \<Rightarrow> bool" where
  "ringsOk me = (0 \<le> livePtr me \<and> livePtr me < LiveLogSize \<and>
                 list_all (\<lambda>l. int (length l) = LiveLogSize) (liveLog me))"

definition ringRow :: "'s metricEntry \<Rightarrow> int list \<Rightarrow> nat \<Rightarrow> float64 list" where
  "ringRow me idxs k = map (\<lambda>c. liveLog me ! nat c ! nat ((livePtr me + int k) mod LiveLogSize)) idxs"

definition channelsOk :: "'s registry \<Rightarrow> MetricType \<Rightarrow> string list \<Rightarrow> bool" where
  "channelsOk reg ty chs =
     list_all (\<lambda>n. 0 \<le> getChannelIndex reg ty n
                  \<and> getChannelIndex reg ty n < int (length (metricTypes reg ty))) chs"


section \<open>The datastore (fs\_datastore.go, the partitioned version)\<close>

text \<open>
  The files of one stream.  \<open>name.dat\<close> is a sequence of 8-byte values and \<open>name.idx\<close> a
  sequence of 16-byte entries (timestamp, position); \<open>f_dat_rest\<close> and \<open>f_idx_rest\<close>
  count the bytes after the last whole value or entry, so that a file whose size is not
  a multiple of the record size can be told from a whole one.  Failures of the operating
  system (open, stat, seek, write) are outside the model; the error branches that remain
  are the ones decided by the contents of the files.
\<close>

type_synonym fsDsRecord = "int \<times> float64"

record fsFiles =
  f_dat :: "float64 list"
  f_dat_rest :: int
  f_idx :: "(int \<times> int) list"
  f_idx_rest :: int

definition datSize :: "fsFiles \<Rightarrow> int" where
  "datSize fl = 8 * int (length (f_dat fl)) + f_dat_rest fl"

definition idxSize :: "fsFiles \<Rightarrow> int" where
  "idxSize fl = 16 * int (length (f_idx fl)) + f_idx_rest fl"

text \<open>The files \<open>O_CREATE\<close> makes when there are none.\<close>

definition noFiles :: fsFiles where
  "noFiles = \<lparr>f_dat = [], f_dat_rest = 0, f_idx = [], f_idx_rest = 0\<rparr>"

text \<open>\<open>fsDsStream\<close>, without its name, its lock and its file handles.\<close>

record fsDsStream =
  st_tail :: "fsDsRecord list"
  st_valid :: bool
  st_lastWr :: int
  st_dsize :: int
  st_isize :: int

definition newStream :: "fsDsRecord list \<Rightarrow> fsDsStream" where
  "newStream tail = \<lparr>st_tail = tail, st_valid = False, st_lastWr = 0, st_dsize = 0, st_isize = 0\<rparr>"

text \<open>\<open>-1<<63 - (-1<<63)%60\<close>, the last-written timestamp of a stream without index.\<close>

definition minTs :: int where
  "minTs = - (2 ^ 63) - go_mod (- (2 ^ 63)) 60"

text \<open>
  \<open>openFiles\<close>: for a stream that is not valid, take the sizes from the files, refuse
  sizes that are not whole, and compute the last written timestamp from the last index
  entry.  The sizes are stored before they are checked, as in the code.
\<close>

definition openFiles :: "fsDsStream \<Rightarrow> fsFiles \<Rightarrow> error option \<times> fsDsStream" where
  "openFiles st fl =
     (if \<not> st_valid st then
        (let st1 = st\<lparr>st_dsize := datSize fl, st_isize := idxSize fl\<rparr>
         in if go_mod (st_isize st1) 16 \<noteq> 0 \<or> go_mod (st_dsize st1) 8 \<noteq> 0
            then (Some (ErrOther ''Invalid file size''), st1)
            else if st_isize st1 = 0
            then (None, st1\<lparr>st_lastWr := minTs, st_valid := True\<rparr>)
            else (case at_index (f_idx fl) (go_div (st_isize st1 - 16) 16) of
                    None \<Rightarrow> (Some (ErrOther ''EOF''), st1)
                  | Some (ts, pos) \<Rightarrow>
                      (None, st1\<lparr>st_lastWr := ts + 60 * (go_div (st_dsize st1 - pos) 8 - 1),
                                  st_valid := True\<rparr>)))
      else (None, st))"

text \<open>
  The loop of \<open>writeTail\<close> over the tail.  Its state is the two buffers and the local
  \<open>dsize\<close>, \<open>isize\<close>, \<open>lastWr\<close>.
\<close>

record wstate =
  w_dbuff :: "float64 list"
  w_ibuff :: "(int \<times> int) list"
  w_dsize :: int
  w_isize :: int
  w_lastWr :: int

definition writeRecord :: "fsDsRecord \<Rightarrow> wstate \<Rightarrow> wstate" where
  "writeRecord r s =
     (if go_mod (fst r) 60 \<noteq> 0 then s
      else if w_lastWr s \<ge> fst r then s
      else (let s1 = s\<lparr>w_dbuff := w_dbuff s @ [snd r], w_dsize := w_dsize s + 8,
                        w_lastWr := w_lastWr s + 60\<rparr>
            in if fst r > w_lastWr s1
               then s1\<lparr>w_ibuff := w_ibuff s1 @ [(fst r, w_dsize s1 - 8)],
                       w_isize := w_isize s1 + 16, w_lastWr := fst r\<rparr>
               else s1))"

fun writeLoop :: "fsDsRecord list \<Rightarrow> wstate \<Rightarrow> wstate" where
  "writeLoop [] s = s"
| "writeLoop (r # rs) s = writeLoop rs (writeRecord r s)"

text \<open>
  \<open>writeTail\<close>: the buffers are appended to the files (\<open>Seek\<close> to the end, \<open>WriteTo\<close>)
  and the three fields are stored.
\<close>

definition writeTail :: "fsDsStream \<Rightarrow> fsFiles \<Rightarrow> error option \<times> fsDsStream \<times> fsFiles" where
  "writeTail st fl =
     (case openFiles st fl of
        (Some e, st1) \<Rightarrow> (Some e, st1, fl)
      | (None, st1) \<Rightarrow>
          (let s = writeLoop (st_tail st1)
                     \<lparr>w_dbuff = [], w_ibuff = [], w_dsize = st_dsize st1,
                      w_isize = st_isize st1, w_lastWr = st_lastWr st1\<rparr>
           in (None,
               st1\<lparr>st_dsize := w_dsize s, st_isize := w_isize s, st_lastWr := w_lastWr s\<rparr>,
               fl\<lparr>f_dat := f_dat fl @ w_dbuff s, f_idx := f_idx fl @ w_ibuff s\<rparr>)))"

text \<open>
  \<open>fsDsSnapshot\<close>: a copy of the tail, the files behind the two handles, and the
  three fields of the stream.
\<close>

record fsDsSnapshot =
  s_tail :: "fsDsRecord list"
  s_files :: fsFiles
  s_lastWr :: int
  s_dsize :: int
  s_isize :: int

definition streamSnapshot :: "fsDsStream \<Rightarrow> fsFiles \<Rightarrow> (error + fsDsSnapshot) \<times> fsDsStream" where
  "streamSnapshot st fl =
     (case openFiles st fl of
        (Some e, st1) \<Rightarrow> (Inl e, st1)
      | (None, st1) \<Rightarrow>
          (Inr \<lparr>s_tail = st_tail st1, s_files = fl, s_lastWr = st_lastWr st1,
                s_dsize = st_dsize st1, s_isize = st_isize st1\<rparr>, st1))"

text \<open>
  \<open>readIdxEntry\<close>: seek to \<open>16 n\<close>, read one entry, refuse a timestamp that is not a
  multiple of 60 and a position that is not a multiple of 8.
\<close>

definition readIdxEntry :: "fsDsSnapshot \<Rightarrow> int \<Rightarrow> error + (int \<times> int)" where
  "readIdxEntry s n =
     (if n * 16 < 0 then Inl (ErrOther ''seek: invalid argument'')
      else case at_index (f_idx (s_files s)) n of
             None \<Rightarrow> Inl (ErrOther ''EOF'')
           | Some (t, p) \<Rightarrow>
               if go_mod t 60 \<noteq> 0 \<or> go_mod p 8 \<noteq> 0 then Inl (ErrOther ''Invalid index data'')
               else Inr (t, p))"

text \<open>
  The read of one value of the data file at a byte position.  The positions
  \<open>LatestBefore\<close> reads are multiples of 8 whenever \<open>dsize\<close> is (the index positions
  have passed the check of \<open>readIdxEntry\<close>); another position is given the error result.
\<close>

definition readDat :: "fsDsSnapshot \<Rightarrow> int \<Rightarrow> error + float64" where
  "readDat s pos =
     (if pos < 0 then Inl (ErrOther ''seek: invalid argument'')
      else if go_mod pos 8 \<noteq> 0 then Inl (ErrOther ''unaligned read'')
      else case at_index (f_dat (s_files s)) (go_div pos 8) of
             None \<Rightarrow> Inl (ErrOther ''EOF'')
           | Some v \<Rightarrow> Inr v)"

text \<open>The binary search of \<open>findIdx\<close>, from the bounds \<open>i\<close> and \<open>j\<close>.\<close>

function findIdxLoop :: "fsDsSnapshot \<Rightarrow> int \<Rightarrow> int \<Rightarrow> int \<Rightarrow> error + int" where
  "findIdxLoop s ts i j =
     (if i < j then
        (let k = go_div (i + j) 2
         in case readIdxEntry s k of Inl e \<Rightarrow> Inl e
            | Inr (t, p) \<Rightarrow>
                if t = ts then findIdxLoop s ts k k
                else if t > ts then findIdxLoop s ts i (k - 1)
                else if i \<noteq> k then findIdxLoop s ts k j
                else (case readIdxEntry s j of Inl e \<Rightarrow> Inl e
                      | Inr (x, q) \<Rightarrow>
                          if x > ts then findIdxLoop s ts i i else findIdxLoop s ts j j))
      else Inr i)"
  by pat_completeness auto
termination
proof (relation "measure (\<lambda>(s, ts, i, j). nat (j - i))", goal_cases)
  case 1
  show ?case by simp
next
  case (2 s ts i j k x t p)
  then show ?case by simp
next
  case (3 s ts i j k x t p)
  then have "k \<le> (i + j) div 2 \<or> i + j < 0"
    by (auto simp: signed_divide_int_def sgn_if split: if_splits)
  with 3 show ?case
    by (auto simp: signed_divide_int_def sgn_if split: if_splits)
next
  case (4 s ts i j k x t p)
  then show ?case
    by (auto simp: signed_divide_int_def sgn_if split: if_splits)
next
  case (5 s ts i j k x t p y xa q)
  then show ?case by simp
next
  case (6 s ts i j k x t p y xa q)
  then show ?case by simp
qed

declare findIdxLoop.simps [simp del]

definition findIdx :: "fsDsSnapshot \<Rightarrow> int \<Rightarrow> error + int" where
  "findIdx s ts =
     (if s_isize s = 0 then Inr (- 1)
      else case readIdxEntry s 0 of Inl e \<Rightarrow> Inl e
           | Inr (first, p) \<Rightarrow>
               if first > ts then Inr (- 1)
               else findIdxLoop s ts 0 (go_div (s_isize s) 16 - 1))"

text \<open>
  \<open>findTail\<close>: the index of the last tail record the writer would accept whose
  timestamp is at most \<open>ts\<close>; the scan ends at the first accepted record after \<open>ts\<close>.
\<close>

fun findTailLoop :: "fsDsRecord list \<Rightarrow> int \<Rightarrow> int \<Rightarrow> int \<Rightarrow> int \<Rightarrow> int" where
  "findTailLoop [] ts i lst k = k"
| "findTailLoop (r # rs) ts i lst k =
     (if go_mod (fst r) 60 \<noteq> 0 \<or> lst \<ge> fst r then findTailLoop rs ts (i + 1) lst k
      else if fst r \<le> ts then findTailLoop rs ts (i + 1) (fst r) i
      else k)"

definition findTail :: "fsDsSnapshot \<Rightarrow> int \<Rightarrow> int" where
  "findTail s ts = findTailLoop (s_tail s) ts 0 (s_lastWr s) (- 1)"

text \<open>\<open>LatestBefore\<close>, on the snapshot of the stream.\<close>

definition snapLatestBefore :: "fsDsSnapshot \<Rightarrow> int \<Rightarrow> Record outcome" where
  "snapLatestBefore s ts0 =
     (let ts = ts0 - go_mod ts0 60; n = findTail s ts
      in if n \<noteq> - 1 then
           (case at_index (s_tail s) n of None \<Rightarrow> Panic | Some r \<Rightarrow> Return (fst r, snd r))
         else case findIdx s ts of Inl e \<Rightarrow> Fail e
           | Inr n \<Rightarrow>
               if n = - 1 then Fail ErrNoData
               else (case readIdxEntry s n of Inl e \<Rightarrow> Fail e
                 | Inr (t, pos) \<Rightarrow>
                     (case (if n = go_div (s_isize s) 16 - 1 then Inr (s_dsize s - 8)
                            else (case readIdxEntry s (n + 1) of Inl e \<Rightarrow> Inl e
                                  | Inr (t', p) \<Rightarrow> Inr (p - 8))) of
                        Inl e \<Rightarrow> Fail e
                      | Inr lastPos \<Rightarrow>
                          (case readDat s lastPos of Inl e \<Rightarrow> Fail e
                           | Inr v \<Rightarrow> Return (t + 60 * go_div (lastPos - pos) 8, v)))))"

text \<open>
  \<open>FsDatastore\<close> with the directory it works on: the files of every stream and the
  bytes of the file \<open>tail_data\<close>, if there is one.  The four partitions are one table:
  the partition of a stream is a function of its name.
\<close>

record FsDatastore =
  fs_running :: bool
  fs_streams :: "string \<rightharpoonup> fsDsStream"
  fs_disk :: "string \<Rightarrow> fsFiles"
  fs_tail_data :: "string option"

text \<open>\<open>getStream\<close>: \<open>None\<close> is the nil result of a datastore that is not running.\<close>

definition getStream :: "FsDatastore \<Rightarrow> string \<Rightarrow> (fsDsStream \<times> FsDatastore) option" where
  "getStream ds name =
     (if \<not> fs_running ds then None
      else case fs_streams ds name of
             Some st \<Rightarrow> Some (st, ds)
           | None \<Rightarrow> Some (newStream [], ds\<lparr>fs_streams := (fs_streams ds)(name \<mapsto> newStream [])\<rparr>))"

definition Insert :: "FsDatastore \<Rightarrow> string \<Rightarrow> Record \<Rightarrow> error option \<times> FsDatastore" where
  "Insert ds name r =
     (case getStream ds name of
        None \<Rightarrow> (Some (ErrOther ''Datastore not running''), ds)
      | Some (st, ds1) \<Rightarrow>
          (None, ds1\<lparr>fs_streams := (fs_streams ds1)(name \<mapsto> st\<lparr>st_tail := st_tail st @ [r]\<rparr>)\<rparr>))"

definition makeSnapshot :: "FsDatastore \<Rightarrow> string \<Rightarrow> (error + fsDsSnapshot) \<times> FsDatastore" where
  "makeSnapshot ds name =
     (case getStream ds name of
        None \<Rightarrow> (Inl (ErrOther ''Datastore not running''), ds)
      | Some (st, ds1) \<Rightarrow>
          (case streamSnapshot st (fs_disk ds1 name) of
             (res, st1) \<Rightarrow> (res, ds1\<lparr>fs_streams := (fs_streams ds1)(name \<mapsto> st1)\<rparr>)))"

text \<open>
  \<open>Query\<close>.  With a snapshot (\<open>s != nil\<close>) the function returns the empty list and the
  nil error at once; without one it goes on, and the deferred \<open>s.close()\<close> dereferences
  the nil snapshot.  The body proper is a \<open>TODO\<close>.
\<close>

definition Query :: "FsDatastore \<Rightarrow> string \<Rightarrow> int \<Rightarrow> int \<Rightarrow> Record list outcome \<times> FsDatastore" where
  "Query ds name from until =
     (case makeSnapshot ds name of
        (Inr s, ds1) \<Rightarrow> (Return [], ds1)
      | (Inl e, ds1) \<Rightarrow> (Panic, ds1))"

definition LatestBefore :: "FsDatastore \<Rightarrow> string \<Rightarrow> int \<Rightarrow> Record outcome \<times> FsDatastore" where
  "LatestBefore ds name ts =
     (case makeSnapshot ds name of
        (Inl e, ds1) \<Rightarrow> (Fail e, ds1)
      | (Inr s, ds1) \<Rightarrow> (snapLatestBefore s ts, ds1))"

text \<open>
  One turn of the writer (\<open>write\<close>) for the stream \<open>name\<close> of the queue: a stream with an
  empty tail leaves the table; otherwise its tail is written and emptied, and an error
  makes the stream invalid.
\<close>

definition writerTurn :: "FsDatastore \<Rightarrow> string \<Rightarrow> FsDatastore" where
  "writerTurn ds name =
     (if \<not> fs_running ds then ds
      else case fs_streams ds name of
             None \<Rightarrow> ds
           | Some st \<Rightarrow>
               if length (st_tail st) = 0 then ds\<lparr>fs_streams := (fs_streams ds)(name := None)\<rparr>
               else (case writeTail st (fs_disk ds name) of
                       (err, st1, fl1) \<Rightarrow>
                         (let st2 = (if err \<noteq> None then st1\<lparr>st_valid := False\<rparr> else st1)
                          in ds\<lparr>fs_streams := (fs_streams ds)(name \<mapsto> st2\<lparr>st_tail := []\<rparr>),
                                fs_disk := (fs_disk ds)(name := fl1)\<rparr>)))"






section \<open>Opening the datastore: the tail checkpoint\<close>











section \<open>The timer metric (timerStats)\<close>


text \<open>
  The loop of \<open>timerStats\<close> over the sorted pairs: \<open>m\<close> is the weight seen so far, the
  triple holds \<open>quart1\<close>, \<open>median\<close>, \<open>quart3\<close>.
\<close>

fun timerLoop :: "real \<Rightarrow> (real \<times> real) list \<Rightarrow> real \<Rightarrow> real \<times> real \<times> real \<Rightarrow> real \<times> real \<times> real" where
  "timerLoop n [] m q = q"
| "timerLoop n ((d, c) # r) m (quart1, median, quart3) =
     timerLoop n r (m + c)
       (if m + c \<ge> n * 0.25 \<and> m < n * 0.25 then d else quart1,
        if m + c \<ge> n * 0.50 \<and> m < n * 0.50 then d else median,
        if m + c \<ge> n * 0.75 \<and> m < n * 0.75 then d else quart3)"

text \<open>
  \<open>timerStats\<close>.  \<open>None\<close> is the panic of \<open>cnt[i]\<close> when \<open>cnt\<close> is shorter than
  \<open>data\<close>.  The second component is the pair of slices after the sort in place.
\<close>

definition timerSorted ::
  "((real \<times> real) list \<Rightarrow> (real \<times> real) list) \<Rightarrow> real list \<Rightarrow> real list \<Rightarrow> (real \<times> real) list" where
  "timerSorted srt data cnt = (if length data = 0 then zip data cnt else srt (zip data cnt))"

definition timerStats ::
  "((real \<times> real) list \<Rightarrow> (real \<times> real) list) \<Rightarrow> real list \<Rightarrow> real list \<Rightarrow> float64 list option" where
  "timerStats srt data cnt =
     (if length data = 0 then Some [NaN, NaN, NaN, NaN, NaN, Fin 0]
      else if length cnt < length data then None
      else (let n = foldl (+) 0 cnt;
                ps = timerSorted srt data cnt;
                (quart1, median, quart3) = timerLoop n ps 0 (0, 0, 0)
            in Some [Fin (fst (hd ps)), Fin quart1, Fin median, Fin quart3,
                     Fin (fst (last ps)), Fin n]))"

text \<open>\<open>timerMetric\<close> with \<open>inject\<close>, \<open>tick\<close> and \<open>flush\<close>.\<close>

record timerMetric =
  tm_tickData :: "real list"
  tm_data :: "real list"
  tm_tickCnt :: "real list"
  tm_cnt :: "real list"




definition tm_flush ::
  "((real \<times> real) list \<Rightarrow> (real \<times> real) list) \<Rightarrow> timerMetric \<Rightarrow> float64 list option \<times> timerMetric" where
  "tm_flush srt m =
     (timerStats srt (tm_data m) (tm_cnt m), m\<lparr>tm_data := [], tm_cnt := []\<rparr>)"





section \<open>Example instances\<close>

text \<open>
  Modelled from the spec: the registry of metric kinds (\<open>metricTypes\<close>,
  \<open>metricTypeByChannels\<close>, \<open>getChannelIndex\<close>, \<open>CheckMetricName\<close> and the
  aggregators) is not among the source files.  The example registry has the channels the
  specification gives to the counter and to the gauge (\<open>count\<close> and \<open>value\<close>, both
  persisted, default 0) and an aggregator that keeps the last vector put into it.  With
  an empty datastore and a running server without entries, the operations of the server
  can be run on it.
\<close>

definition exRegistry :: "float64 list registry" where
  "exRegistry =
     \<lparr>metricTypes = (\<lambda>ty. if ty = Counter
                           then [\<lparr>ch_name = ''count'', ch_default = Fin 0, ch_persist = True\<rparr>]
                         else if ty = Gauge
                           then [\<lparr>ch_name = ''value'', ch_default = Fin 0, ch_persist = True\<rparr>]
                         else []),
      metricTypeByChannels = (\<lambda>chs. if chs = [''count''] then Inr Counter
                                  else if chs = [''value''] then Inr Gauge
                                  else Inl ErrChannelInvalid),
      getChannelIndex = (\<lambda>ty n. 0),
      CheckMetricName = (\<lambda>n. if n = [] then Some ErrNameInvalid else None),
      newAggregator = (\<lambda>ty chs. \<lparr>aggr_channels = [0], aggr_init = (\<lambda>d. d),
                                   aggr_put = (\<lambda>s v. v), aggr_get = (\<lambda>s. (s, s))\<rparr>)\<rparr>"

definition exDatastore :: Datastore where
  "exDatastore = \<lparr>ds_LatestBefore = (\<lambda>n ts. Inl ErrNoData), ds_Query = (\<lambda>n f u. Inr [])\<rparr>"

definition exServer :: "int \<Rightarrow> float64 list Server" where
  "exServer t = \<lparr>Ds = exDatastore, Prefix = ''p.'', metrics = (\<lambda>ty. Map.empty),
                 running = True, stopping = False, srvLastTick = t\<rparr>"

text \<open>
  A running datastore on an empty directory, and the same datastore after the records
  \<open>(0, 1)\<close>, \<open>(60, 2)\<close>, \<open>(120, 3)\<close> have been inserted into the stream \<open>s\<close> and the
  writer has had its turn.
\<close>

definition exEmptyDs :: FsDatastore where
  "exEmptyDs = \<lparr>fs_running = True, fs_streams = Map.empty, fs_disk = (\<lambda>n. noFiles),
                 fs_tail_data = None\<rparr>"

definition exStoredDs :: FsDatastore where
  "exStoredDs =
     writerTurn
       (snd (Insert (snd (Insert (snd (Insert exEmptyDs ''s'' (0, Fin 1))) ''s'' (60, Fin 2)))
               ''s'' (120, Fin 3)))
       ''s''"


section \<open>Properties of the parser\<close>


lemma scanName_Inl: "scanName m i = Inl e \<Longrightarrow> e = ErrNameInvalid"
  by (induction m arbitrary: i) (auto split: if_splits)

lemma scanName_Inr:
  "scanName m i = Inr n \<Longrightarrow> n \<noteq> - 1 \<Longrightarrow> 0 \<le> i \<Longrightarrow>
   i \<le> n \<and> n < i + int (length m) \<and>
   CHR '':'' \<notin> set (take (nat (n - i)) m) \<and> CHR ''/'' \<notin> set (take (nat (n - i)) m) \<and>
   CHR 0x00 \<notin> set (take (nat (n - i)) m)"
proof (induction m arbitrary: i)
  case Nil
  then show ?case by simp
next
  case (Cons ch r)
  show ?case
  proof (cases "ch = CHR '':''")
    case True
    with Cons.prems show ?thesis by simp
  next
    case False
    with Cons.prems have bad: "ch \<noteq> CHR ''/''" "ch \<noteq> CHR 0x00" and rec: "scanName r (i + 1) = Inr n"
      by (auto split: if_splits)
    from Cons.IH [OF rec] Cons.prems
    have ih: "i + 1 \<le> n" "n < i + 1 + int (length r)"
      "CHR '':'' \<notin> set (take (nat (n - (i + 1))) r)"
      "CHR ''/'' \<notin> set (take (nat (n - (i + 1))) r)"
      "CHR 0x00 \<notin> set (take (nat (n - (i + 1))) r)"
      by auto
    have "nat (n - i) = Suc (nat (n - (i + 1)))" using ih(1) by simp
    with ih False bad show ?thesis by auto
  qed
qed

lemma scanBar_range:
  "0 \<le> i \<Longrightarrow> scanBar m i = - 1 \<or> (i \<le> scanBar m i \<and> scanBar m i < i + int (length m))"
proof (induction m arbitrary: i)
  case Nil
  then show ?case by simp
next
  case (Cons ch r)
  from Cons.IH [of "i + 1"] Cons.prems show ?case by auto
qed


lemma parseType_no_panic:
  "0 \<le> n \<Longrightarrow> n \<le> int (length m) \<Longrightarrow> \<exists>t. parseType m n = Return t"
  by (auto simp: parseType_def at_index_def)

lemma parseRate_cases:
  assumes "0 \<le> n" "n \<le> int (length m)"
  shows "(\<exists>s. parseRate pf m n = Return s) \<or> (\<exists>e. parseRate pf m n = Fail e \<and> isParseError e)"
  using assms
  by (auto simp: parseRate_def at_index_def slice_from_def isParseError_def split: option.splits)

lemma parseTail_cases:
  "(\<exists>typ sr. parseTail pf name v m = Return \<lparr>Name = name, Type = typ, Value = v, SampleRate = sr\<rparr>)
   \<or> (\<exists>e. parseTail pf name v m = Fail e \<and> isParseError e)"
proof -
  define n where "n = (if scanBar m 0 = - 1 then int (length m) else scanBar m 0)"
  have rng: "0 \<le> n" "n \<le> int (length m)"
    using scanBar_range [of 0 m] by (auto simp: n_def)
  obtain t where t: "parseType m n = Return t"
    using parseType_no_panic [OF rng] by blast
  show ?thesis
  proof (cases t)
    case None
    with t show ?thesis by (simp add: parseTail_def Let_def n_def [symmetric] isParseError_def)
  next
    case (Some k)
    from parseRate_cases [OF rng, of pf] show ?thesis
    proof
      assume "\<exists>s. parseRate pf m n = Return s"
      then obtain s where "parseRate pf m n = Return s" ..
      with t Some show ?thesis by (simp add: parseTail_def Let_def n_def [symmetric])
    next
      assume "\<exists>e. parseRate pf m n = Fail e \<and> isParseError e"
      then obtain e where "parseRate pf m n = Fail e" "isParseError e" by blast
      with t Some show ?thesis by (simp add: parseTail_def Let_def n_def [symmetric])
    qed
  qed
qed

lemma parseValue_cases:
  "(\<exists>typ v sr. parseValue pf name m = Return \<lparr>Name = name, Type = typ, Value = v, SampleRate = sr\<rparr>)
   \<or> (\<exists>e. parseValue pf name m = Fail e \<and> isParseError e)"
proof -
  define n where "n = scanBar m 0"
  have rng: "n = - 1 \<or> (0 \<le> n \<and> n < int (length m))"
    using scanBar_range [of 0 m] by (auto simp: n_def)
  show ?thesis
  proof (cases "n = 0 \<or> n = - 1 \<or> n = int (length m) - 1")
    case True
    then show ?thesis by (auto simp: parseValue_def Let_def n_def [symmetric] isParseError_def)
  next
    case False
    with rng have b: "0 < n" "n + 1 \<le> int (length m)" by auto
    show ?thesis
    proof (cases "pf (take (nat n) m)")
      case None
      with False b show ?thesis
        by (simp add: parseValue_def Let_def n_def [symmetric] slice_to_def isParseError_def)
    next
      case (Some v)
      with False b have "parseValue pf name m = parseTail pf name v (drop (nat (n + 1)) m)"
        by (simp add: parseValue_def Let_def n_def [symmetric] slice_to_def slice_from_def)
      with parseTail_cases [of pf name v "drop (nat (n + 1)) m"] show ?thesis by metis
    qed
  qed
qed

lemma ParseMetric_cases:
  "(\<exists>mt. ParseMetric pf m = Return mt \<and> Name mt \<noteq> [] \<and> CHR '':'' \<notin> set (Name mt) \<and>
          CHR ''/'' \<notin> set (Name mt) \<and> CHR 0x00 \<notin> set (Name mt))
   \<or> (\<exists>e. ParseMetric pf m = Fail e \<and> isParseError e)"
proof (cases "scanName m 0")
  case (Inl e)
  then have "e = ErrNameInvalid" by (rule scanName_Inl)
  with Inl show ?thesis by (simp add: ParseMetric_def isParseError_def)
next
  case (Inr n)
  show ?thesis
  proof (cases "length m = 0 \<or> n = 0 \<or> n = - 1 \<or> n = int (length m) - 1")
    case True
    with Inr show ?thesis by (auto simp: ParseMetric_def isParseError_def)
  next
    case False
    with scanName_Inr [OF Inr] have b: "0 < n" "n < int (length m)"
      and clean: "CHR '':'' \<notin> set (take (nat n) m)" "CHR ''/'' \<notin> set (take (nat n) m)"
        "CHR 0x00 \<notin> set (take (nat n) m)"
      by auto
    from False b Inr
    have eq: "ParseMetric pf m = parseValue pf (take (nat n) m) (drop (nat (n + 1)) m)"
      by (simp add: ParseMetric_def slice_to_def slice_from_def)
    have ne: "take (nat n) m \<noteq> []" using b by auto
    from parseValue_cases [of pf "take (nat n) m" "drop (nat (n + 1)) m"] show ?thesis
    proof
      assume "\<exists>typ v sr. parseValue pf (take (nat n) m) (drop (nat (n + 1)) m) =
          Return \<lparr>Name = take (nat n) m, Type = typ, Value = v, SampleRate = sr\<rparr>"
      then obtain k v sr where "parseValue pf (take (nat n) m) (drop (nat (n + 1)) m) =
          Return \<lparr>Name = take (nat n) m, Type = k, Value = v, SampleRate = sr\<rparr>" by blast
      with eq ne clean show ?thesis by simp
    next
      assume "\<exists>e. parseValue pf (take (nat n) m) (drop (nat (n + 1)) m) = Fail e \<and> isParseError e"
      with eq show ?thesis by simp
    qed
  qed
qed

text \<open>
  Claim C10.  For every input byte slice and every behaviour of \<open>ParseFloat\<close>,
  \<open>ParseMetric\<close> returns without a panic; the result is one of the eight parse errors
  (name, type, value or sample rate missing or invalid), or a metric whose name is
  non-empty and holds no \<open>':'\<close>, \<open>'/'\<close> or NUL byte and whose type is one of the
  four kinds.  Termination is by construction: the loops are structural recursions.
\<close>

theorem ParseMetric_total:
  "(\<exists>e. ParseMetric pf m = Fail e \<and>
        e \<in> {ErrNoName, ErrNoType, ErrNoValue, ErrNoSampling,
             ErrNameInvalid, ErrTypeInvalid, ErrValueInvalid, ErrSamplingInvalid})
   \<or> (\<exists>mt. ParseMetric pf m = Return mt \<and> Name mt \<noteq> [] \<and>
          CHR '':'' \<notin> set (Name mt) \<and> CHR ''/'' \<notin> set (Name mt) \<and> CHR 0x00 \<notin> set (Name mt) \<and>
          Type mt \<in> {Counter, Gauge, Avg, Timer})"
proof -
  have ty: "\<And>t. t \<in> {Counter, Gauge, Avg, Timer}"
    by (case_tac t) simp_all
  from ParseMetric_cases [of pf m] show ?thesis
    unfolding isParseError_def using ty by blast
qed


lemma nat_int_succ: "nat (int n + 1) = Suc n"
  by simp

lemma scanName_clean:
  "CHR '':'' \<notin> set name \<Longrightarrow> CHR ''/'' \<notin> set name \<Longrightarrow> CHR 0x00 \<notin> set name \<Longrightarrow>
   scanName (name @ CHR '':'' # rest) i = Inr (i + int (length name))"
  by (induction name arbitrary: i) auto

lemma scanBar_clean:
  "CHR ''|'' \<notin> set v \<Longrightarrow> scanBar (v @ CHR ''|'' # rest) i = i + int (length v)"
  by (induction v arbitrary: i) auto

lemma scanBar_none: "CHR ''|'' \<notin> set v \<Longrightarrow> scanBar v i = - 1"
  by (induction v arbitrary: i) auto

lemma parseTail_plain:
  assumes "wireType ts = Some k"
  shows "parseTail pf name v ts = Return \<lparr>Name = name, Type = k, Value = v, SampleRate = 1\<rparr>"
  using assms
  by (auto simp: wireType_def parseTail_def parseType_def parseRate_def at_index_def Let_def
      split: if_splits)

lemma parseTail_rate:
  assumes "wireType ts = Some k" "pf rate = Some s" "0 < s"
  shows "parseTail pf name v (ts @ CHR ''|'' # CHR ''@'' # rate)
         = Return \<lparr>Name = name, Type = k, Value = v, SampleRate = s\<rparr>"
  using assms
  by (auto simp: wireType_def parseTail_def parseType_def parseRate_def at_index_def
      slice_from_def Let_def split: if_splits)

lemma parseValue_line:
  assumes "pf value = Some v" "value \<noteq> []" "CHR ''|'' \<notin> set value" "rest \<noteq> []"
  shows "parseValue pf name (value @ CHR ''|'' # rest) = parseTail pf name v rest"
proof -
  have n: "scanBar (value @ CHR ''|'' # rest) 0 = int (length value)"
    using scanBar_clean [OF assms(3), of rest 0] by simp
  show ?thesis using assms
    by (simp add: parseValue_def n slice_to_def slice_from_def nat_int_succ)
qed

lemma ParseMetric_line:
  assumes "name \<noteq> []" "CHR '':'' \<notin> set name" "CHR ''/'' \<notin> set name" "CHR 0x00 \<notin> set name"
    "rest \<noteq> []"
  shows "ParseMetric pf (name @ CHR '':'' # rest) = parseValue pf name rest"
proof -
  have n: "scanName (name @ CHR '':'' # rest) 0 = Inr (int (length name))"
    using scanName_clean [OF assms(2-4), of rest 0] by simp
  show ?thesis using assms
    by (simp add: ParseMetric_def n slice_to_def slice_from_def nat_int_succ)
qed

lemma wireType_ne: "wireType ts = Some k \<Longrightarrow> ts \<noteq> []"
  by (auto simp: wireType_def)

text \<open>
  Claim C4.  A wire line \<open>NAME ':' VALUE '|' TYPE\<close>, with an optional
  \<open>'|@' SAMPLE_RATE\<close>, where NAME is non-empty and free of \<open>':'\<close>, \<open>'/'\<close> and NUL,
  VALUE parses as a float (so it is non-empty and holds no \<open>'|'\<close>), TYPE is one of
  \<open>c\<close>, \<open>g\<close>, \<open>a\<close>, \<open>ms\<close> and SAMPLE_RATE parses as a strictly positive float,
  is parsed into the metric with exactly these four fields; the sample rate is 1 when
  the rate part is absent.
\<close>

theorem ParseMetric_accepts_wire_line:
  assumes "name \<noteq> []" "CHR '':'' \<notin> set name" "CHR ''/'' \<notin> set name" "CHR 0x00 \<notin> set name"
    and "pf value = Some v" "value \<noteq> []" "CHR ''|'' \<notin> set value"
    and "wireType ts = Some k"
  shows "ParseMetric pf (name @ '':'' @ value @ ''|'' @ ts)
           = Return \<lparr>Name = name, Type = k, Value = v, SampleRate = 1\<rparr>
       \<and> (pf rate = Some s \<and> 0 < s \<longrightarrow>
            ParseMetric pf (name @ '':'' @ value @ ''|'' @ ts @ ''|@'' @ rate)
              = Return \<lparr>Name = name, Type = k, Value = v, SampleRate = s\<rparr>)"
proof -
  have ne: "ts \<noteq> []" using assms(8) by (rule wireType_ne)
  have a: "ParseMetric pf (name @ CHR '':'' # value @ CHR ''|'' # ts)
           = Return \<lparr>Name = name, Type = k, Value = v, SampleRate = 1\<rparr>"
    using assms ne by (simp add: ParseMetric_line parseValue_line parseTail_plain)
  have b: "ParseMetric pf (name @ CHR '':'' # value @ CHR ''|'' # ts @ CHR ''|'' # CHR ''@'' # rate)
           = Return \<lparr>Name = name, Type = k, Value = v, SampleRate = s\<rparr>"
    if "pf rate = Some s" "0 < s"
    using assms ne that by (simp add: ParseMetric_line parseValue_line parseTail_rate)
  from a b show ?thesis by simp
qed

lemma parseDecimal_3: "parseDecimal ''3'' = Some 3"
  by (simp add: parseDecimal_def)

lemma parseDecimal_half: "parseDecimal ''0.5'' = Some (1 / 2)"
  by (simp add: parseDecimal_def)

text \<open>The line \<open>foo:3|c\<close> of the specification, without and with a sample rate.\<close>

theorem ParseMetric_accepts_wire_line_witness:
  "ParseMetric parseDecimal ''foo:3|c''
     = Return \<lparr>Name = ''foo'', Type = Counter, Value = 3, SampleRate = 1\<rparr>
   \<and> ParseMetric parseDecimal ''foo:3|c|@0.5''
     = Return \<lparr>Name = ''foo'', Type = Counter, Value = 3, SampleRate = 1 / 2\<rparr>"
  using ParseMetric_accepts_wire_line [of "''foo''" parseDecimal "''3''" 3 "''c''" Counter "''0.5''" "1 / 2"]
  by (simp add: parseDecimal_3 parseDecimal_half wireType_def)

section \<open>Properties of the server\<close>

lemma go_mod_nonneg: "0 \<le> (x::int) \<Longrightarrow> 0 < g \<Longrightarrow> go_mod x g = x mod g"
  by (cases "x = 0") (simp_all add: smod_int_alt_def)







lemma those_map_Some:
  "(\<And>x. x \<in> set xs \<Longrightarrow> f x = Some (g x)) \<Longrightarrow> those (map f xs) = Some (map g xs)"
  by (induction xs) simp_all

lemma ring_index:
  fixes ptr :: int
  assumes "0 \<le> ptr" "ptr < 600" "k < 600"
  shows "([ptr .. 599] @ [0 .. ptr - 1]) ! k = (ptr + int k) mod 600"
proof (cases "ptr + int k \<le> 599")
  case True
  then have "k < length [ptr .. 599]" using assms by simp
  then have "([ptr .. 599] @ [0 .. ptr - 1]) ! k = [ptr .. 599] ! k" by (simp add: nth_append)
  also have "\<dots> = ptr + int k" using True by simp
  also have "\<dots> = (ptr + int k) mod 600" using True assms by simp
  finally show ?thesis .
next
  case False
  then have ge: "\<not> k < length [ptr .. 599]" using assms by simp
  have len: "length [ptr .. 599] = nat (600 - ptr)" using assms by simp
  have "([ptr .. 599] @ [0 .. ptr - 1]) ! k = [0 .. ptr - 1] ! (k - nat (600 - ptr))"
    using ge by (simp add: nth_append)
  also have "\<dots> = 0 + int (k - nat (600 - ptr))"
    using False assms by (intro nth_upto) linarith
  also have "\<dots> = ptr + int k - 600" using False assms by linarith
  also have "\<dots> = (ptr + int k) mod 600"
  proof -
    define x where "x = ptr + int k - 600"
    have x: "0 \<le> x" "x < 600" using False assms by (simp_all add: x_def)
    have "(x + 600) mod 600 = x mod 600" by (rule mod_add_self2)
    also have "\<dots> = x" using x by (rule mod_pos_pos_trivial)
    finally show ?thesis by (simp add: x_def)
  qed
  finally show ?thesis .
qed

lemma ring_length:
  fixes ptr :: int
  assumes "0 \<le> ptr" "ptr < 600"
  shows "length ([ptr .. 599] @ [0 .. ptr - 1]) = 600"
  using assms by simp

lemma ring_set:
  fixes ptr :: int
  assumes "0 \<le> ptr" "ptr < 600" "i \<in> set ([ptr .. 599] @ [0 .. ptr - 1])"
  shows "0 \<le> i \<and> i < 600"
  using assms by auto

lemma liveRows_ok:
  assumes "0 \<le> ptr" "ptr < LiveLogSize" "list_all (\<lambda>l. int (length l) = LiveLogSize) logs"
  shows "liveRows logs ptr
           = Some (map (\<lambda>i. map (\<lambda>l. l ! nat i) logs) ([ptr .. 599] @ [0 .. ptr - 1]))"
proof -
  have inner: "those (map (\<lambda>l. at_index l i) logs) = Some (map (\<lambda>l. l ! nat i) logs)"
    if "i \<in> set ([ptr .. 599] @ [0 .. ptr - 1])" for i
  proof (rule those_map_Some)
    fix l assume "l \<in> set logs"
    with assms(3) have "int (length l) = 600" by (simp add: list_all_iff LiveLogSize_def)
    moreover have "0 \<le> i \<and> i < 600" using ring_set [of ptr i] assms that by (simp add: LiveLogSize_def)
    ultimately show "at_index l i = Some (l ! nat i)" by (simp add: at_index_def)
  qed
  have "liveRows logs ptr
          = those (map (\<lambda>i. those (map (\<lambda>l. at_index l i) logs)) ([ptr .. 599] @ [0 .. ptr - 1]))"
    by (simp add: liveRows_def LiveLogSize_def)
  also have "\<dots> = Some (map (\<lambda>i. map (\<lambda>l. l ! nat i) logs) ([ptr .. 599] @ [0 .. ptr - 1]))"
    by (rule those_map_Some) (rule inner)
  finally show ?thesis .
qed

lemma select_logs:
  assumes "channelsOk reg ty chs" "length (liveLog me) = length (metricTypes reg ty)"
  shows "those (map (\<lambda>n. at_index (liveLog me) (getChannelIndex reg ty n)) chs)
           = Some (map (\<lambda>n. liveLog me ! nat (getChannelIndex reg ty n)) chs)"
  using assms by (intro those_map_Some) (simp add: channelsOk_def list_all_iff at_index_def)

lemma selected_rings:
  assumes "channelsOk reg ty chs" "length (liveLog me) = length (metricTypes reg ty)" "ringsOk me"
  shows "list_all (\<lambda>l. int (length l) = LiveLogSize)
           (map (\<lambda>n. liveLog me ! nat (getChannelIndex reg ty n)) chs)"
  using assms by (auto simp: channelsOk_def ringsOk_def list_all_iff)

lemma LiveLog_of_entry:
  assumes ty: "metricTypeByChannels reg chs = Inr ty"
    and ge: "getMetricEntry reg srv ty name = Inr (me, srv1, c1)"
    and ch: "channelsOk reg ty chs"
    and len: "length (liveLog me) = length (metricTypes reg ty)"
    and ok: "ringsOk me"
  shows "\<exists>rows. LiveLog reg srv name chs = (Return (rows, lastTick me - 600), srv1, c1)
           \<and> length rows = 600
           \<and> (\<forall>k<600. rows ! k = ringRow me (map (getChannelIndex reg ty) chs) k)"
proof -
  let ?logs = "map (\<lambda>n. liveLog me ! nat (getChannelIndex reg ty n)) chs"
  let ?ring = "[livePtr me .. 599] @ [0 .. livePtr me - 1]"
  let ?rows = "map (\<lambda>i. map (\<lambda>l. l ! nat i) ?logs) ?ring"
  have p: "0 \<le> livePtr me" "livePtr me < 600" using ok by (simp_all add: ringsOk_def LiveLogSize_def)
  have lr: "liveRows ?logs (livePtr me) = Some ?rows"
    using ok selected_rings [OF ch len ok] by (intro liveRows_ok) (simp_all add: ringsOk_def)
  have eq: "LiveLog reg srv name chs = (Return (?rows, lastTick me - 600), srv1, c1)"
    by (simp add: LiveLog_def ty ge select_logs [OF ch len] lr LiveLogSize_def)
  have l: "length ?rows = 600" using ring_length [OF p] by simp
  have r: "?rows ! k = ringRow me (map (getChannelIndex reg ty) chs) k" if "k < 600" for k
  proof -
    have "k < length ?ring" using ring_length [OF p] that by simp
    then have "?rows ! k = map (\<lambda>l. l ! nat (?ring ! k)) ?logs" by (rule nth_map)
    also have "?ring ! k = (livePtr me + int k) mod 600" using p that by (rule ring_index)
    finally show ?thesis by (simp add: ringRow_def LiveLogSize_def comp_def)
  qed
  from eq l r show ?thesis by blast
qed

lemma getMetricEntry_existing:
  "CheckMetricName reg name = None \<Longrightarrow> running srv \<Longrightarrow> metrics srv ty name = Some me \<Longrightarrow>
   getMetricEntry reg srv ty name = Inr (me, srv, [])"
  by (simp add: getMetricEntry_def)

lemma getMetricEntry_fresh:
  "CheckMetricName reg name = None \<Longrightarrow> running srv \<Longrightarrow> metrics srv ty name = None \<Longrightarrow>
   getMetricEntry reg srv ty name
     = Inr (fst (createMetricEntry reg srv ty name),
            srv\<lparr>metrics := (metrics srv)(ty := (metrics srv ty)(name \<mapsto> fst (createMetricEntry reg srv ty name)))\<rparr>,
            snd (createMetricEntry reg srv ty name))"
  by (simp add: getMetricEntry_def split: prod.splits)

lemma createMetricEntry_fields:
  "liveLog (fst (createMetricEntry reg srv ty name))
     = map (\<lambda>c. replicate 600 (fst (channelDefault srv name c (srvLastTick srv)))) (metricTypes reg ty)"
  "livePtr (fst (createMetricEntry reg srv ty name)) = 0"
  "lastTick (fst (createMetricEntry reg srv ty name)) = srvLastTick srv"
  by (simp_all add: createMetricEntry_def Let_def LiveLogSize_def comp_def)

lemma createMetricEntry_ringsOk: "ringsOk (fst (createMetricEntry reg srv ty name))"
  by (simp add: ringsOk_def createMetricEntry_fields LiveLogSize_def list_all_iff)

lemma fresh_ringRow:
  assumes "channelsOk reg ty chs" "k < 600"
  shows "ringRow (fst (createMetricEntry reg srv ty name)) (map (getChannelIndex reg ty) chs) k
           = map (\<lambda>n. fst (channelDefault srv name
                              (metricTypes reg ty ! nat (getChannelIndex reg ty n)) (srvLastTick srv))) chs"
proof -
  have "liveLog (fst (createMetricEntry reg srv ty name)) ! nat (getChannelIndex reg ty n)
          ! nat ((0 + int k) mod 600)
        = fst (channelDefault srv name
                 (metricTypes reg ty ! nat (getChannelIndex reg ty n)) (srvLastTick srv))"
    if "n \<in> set chs" for n
  proof -
    from assms(1) that have "nat (getChannelIndex reg ty n) < length (metricTypes reg ty)"
      by (simp add: channelsOk_def list_all_iff nat_less_iff)
    with assms(2) show ?thesis by (simp add: createMetricEntry_fields)
  qed
  then show ?thesis
    by (simp add: ringRow_def createMetricEntry_fields(2) LiveLogSize_def)
qed

lemma updateLiveLog_fields:
  assumes "updateLiveLog me ts data = Some me'" "ringsOk me"
  shows "livePtr me' = (livePtr me + 1) mod 600" "lastTick me' = ts"
    "length (liveLog me') = length (liveLog me)"
    "\<And>c. c < length (liveLog me) \<Longrightarrow> liveLog me' ! c = (liveLog me ! c)[nat (livePtr me) := data ! c]"
proof -
  from assms(1) have len: "length (liveLog me) \<le> length data"
    and me': "me' = me\<lparr>liveLog := map (\<lambda>(l, d). l[nat (livePtr me) := d]) (zip (liveLog me) data),
                   livePtr := go_mod (livePtr me + 1) LiveLogSize, lastTick := ts\<rparr>"
    by (auto simp: updateLiveLog_def split: if_splits)
  from assms(2) have "0 \<le> livePtr me + 1" by (simp add: ringsOk_def)
  then show "livePtr me' = (livePtr me + 1) mod 600"
    by (simp add: me' LiveLogSize_def go_mod_nonneg)
  show "lastTick me' = ts" by (simp add: me')
  show "length (liveLog me') = length (liveLog me)" using len by (simp add: me')
  fix c assume "c < length (liveLog me)"
  with len show "liveLog me' ! c = (liveLog me ! c)[nat (livePtr me) := data ! c]"
    by (simp add: me')
qed

lemma updateLiveLog_ringsOk:
  assumes "updateLiveLog me ts data = Some me'" "ringsOk me"
  shows "ringsOk me'"
proof -
  note f = updateLiveLog_fields [OF assms]
  have "list_all (\<lambda>l. int (length l) = LiveLogSize) (liveLog me')"
    unfolding list_all_length
  proof (intro allI impI)
    fix c assume "c < length (liveLog me')"
    then have c: "c < length (liveLog me)" by (simp add: f(3))
    with assms(2) have "int (length (liveLog me ! c)) = LiveLogSize"
      by (simp add: ringsOk_def list_all_length)
    then show "int (length (liveLog me' ! c)) = LiveLogSize" by (simp add: f(4) [OF c])
  qed
  then show ?thesis by (simp add: ringsOk_def f(1) LiveLogSize_def)
qed

lemma ring_shift:
  fixes p :: int
  assumes "0 \<le> p" "p < 600"
  shows "((p + 1) mod 600 + 599) mod 600 = p"
    and "k < 599 \<Longrightarrow> ((p + 1) mod 600 + int k) mod 600 = (p + int (k + 1)) mod 600"
    and "k < 599 \<Longrightarrow> (p + int (k + 1)) mod 600 \<noteq> p"
proof -
  have "((p + 1) mod 600 + 599) mod 600 = (p + 1 + 599) mod 600" by (rule mod_add_left_eq)
  also have "\<dots> = (p + 600) mod 600" by (simp add: add.assoc)
  also have "\<dots> = p mod 600" by (rule mod_add_self2)
  also have "\<dots> = p" using assms by (rule mod_pos_pos_trivial)
  finally show "((p + 1) mod 600 + 599) mod 600 = p" .
next
  assume "k < 599"
  have "((p + 1) mod 600 + int k) mod 600 = (p + 1 + int k) mod 600" by (rule mod_add_left_eq)
  also have "p + 1 + int k = p + int (k + 1)" by simp
  finally show "((p + 1) mod 600 + int k) mod 600 = (p + int (k + 1)) mod 600" .
next
  assume k: "k < 599"
  show "(p + int (k + 1)) mod 600 \<noteq> p"
  proof
    assume "(p + int (k + 1)) mod 600 = p"
    moreover have "p mod 600 = p" using assms by (rule mod_pos_pos_trivial)
    ultimately have "(p + int (k + 1)) mod 600 = p mod 600" by simp
    then have "600 dvd (p + int (k + 1) - p)" by (simp only: mod_eq_dvd_iff)
    then have "(600::int) dvd int (k + 1)" by simp
    moreover have "0 < int (k + 1)" "int (k + 1) < 600" using k by simp_all
    ultimately show False using zdvd_not_zless by blast
  qed
qed

lemma tick_ringRow:
  assumes up: "updateLiveLog me ts data = Some me'" and ok: "ringsOk me"
    and ix: "list_all (\<lambda>c. 0 \<le> c \<and> c < int (length (liveLog me))) idxs"
  shows "ringRow me' idxs 599 = map (\<lambda>c. data ! nat c) idxs"
    and "\<forall>k<599. ringRow me' idxs k = ringRow me idxs (k + 1)"
proof -
  note f = updateLiveLog_fields [OF up ok]
  have p: "0 \<le> livePtr me" "livePtr me < 600" using ok by (simp_all add: ringsOk_def LiveLogSize_def)
  have ring: "nat (livePtr me) < length (liveLog me ! nat c)" if "c \<in> set idxs" for c
  proof -
    from ix that have "nat c < length (liveLog me)" by (simp add: list_all_iff nat_less_iff)
    with ok have "int (length (liveLog me ! nat c)) = 600"
      by (simp add: ringsOk_def list_all_length LiveLogSize_def)
    with p show ?thesis by simp
  qed
  have a: "liveLog me' ! nat c ! nat ((livePtr me' + 599) mod 600) = data ! nat c"
    if "c \<in> set idxs" for c
  proof -
    from ix that have c: "nat c < length (liveLog me)" by (simp add: list_all_iff nat_less_iff)
    show ?thesis using ring [OF that]
      by (simp add: f(4) [OF c] f(1) ring_shift(1) [OF p])
  qed
  show "ringRow me' idxs 599 = map (\<lambda>c. data ! nat c) idxs"
    using a by (simp add: ringRow_def LiveLogSize_def)
  have b: "liveLog me' ! nat c ! nat ((livePtr me' + int k) mod 600)
           = liveLog me ! nat c ! nat ((livePtr me + int (k + 1)) mod 600)"
    if "c \<in> set idxs" "k < 599" for c k
  proof -
    from ix that have c: "nat c < length (liveLog me)" by (simp add: list_all_iff nat_less_iff)
    have ne: "nat (livePtr me) \<noteq> nat ((livePtr me + int (k + 1)) mod 600)"
    proof
      assume "nat (livePtr me) = nat ((livePtr me + int (k + 1)) mod 600)"
      moreover have "0 \<le> (livePtr me + int (k + 1)) mod 600" by simp
      ultimately have "livePtr me = (livePtr me + int (k + 1)) mod 600" using p(1) by linarith
      with ring_shift(3) [OF p that(2)] show False by simp
    qed
    show ?thesis
      by (simp only: f(4) [OF c] f(1) ring_shift(2) [OF p that(2)] nth_list_update_neq [OF ne])
  qed
  show "\<forall>k<599. ringRow me' idxs k = ringRow me idxs (k + 1)"
    using b by (simp add: ringRow_def LiveLogSize_def)
qed

lemma channelDefault_static:
  "(\<not> ch_persist c \<or> (\<exists>e. ds_LatestBefore (Ds srv) (Prefix srv @ name @ '':'' @ ch_name c) ts = Inl e))
   \<Longrightarrow> fst (channelDefault srv name c ts) = ch_default c"
  by (auto simp: channelDefault_def Let_def)

text \<open>
  Claim C7.  For a valid channel set, \<open>LiveLog(name, channels)\<close> returns 600 rows and
  the start timestamp \<open>lastTick - 600\<close>; row \<open>k\<close> holds
  \<open>liveLog[c][(livePtr + k) mod 600]\<close> for every requested channel \<open>c\<close>.  The order is
  chronological: after a tick has written the vector \<open>data\<close>, the last row holds
  \<open>data\<close> and every earlier row is the row that followed it before the tick.  For a
  metric without an entry (never written), the entry is created and every row holds
  the defaults of the channels.  (The result is a value of the model: that the matrix
  is freshly allocated is true of every list.)
\<close>

theorem LiveLog_chronological:
  assumes ty: "metricTypeByChannels reg chs = Inr ty" and ch: "channelsOk reg ty chs"
    and nm: "CheckMetricName reg name = None" and run: "running srv"
  shows "(metrics srv ty name = Some me \<and> ringsOk me
            \<and> length (liveLog me) = length (metricTypes reg ty) \<longrightarrow>
          (\<exists>rows. LiveLog reg srv name chs = (Return (rows, lastTick me - 600), srv, [])
             \<and> length rows = 600
             \<and> (\<forall>k<600. rows ! k = ringRow me (map (getChannelIndex reg ty) chs) k)))
       \<and> (ringsOk me \<and> length (liveLog me) = length (metricTypes reg ty)
            \<and> updateLiveLog me ts data = Some me' \<longrightarrow>
          ringsOk me' \<and> length (liveLog me') = length (metricTypes reg ty) \<and> lastTick me' = ts
             \<and> ringRow me' (map (getChannelIndex reg ty) chs) 599
                 = map (\<lambda>n. data ! nat (getChannelIndex reg ty n)) chs
             \<and> (\<forall>k<599. ringRow me' (map (getChannelIndex reg ty) chs) k
                          = ringRow me (map (getChannelIndex reg ty) chs) (k + 1)))
       \<and> (metrics srv ty name = None \<longrightarrow>
          (\<exists>srv' calls. LiveLog reg srv name chs
             = (Return (replicate 600
                          (map (\<lambda>n. fst (channelDefault srv name
                                  (metricTypes reg ty ! nat (getChannelIndex reg ty n))
                                  (srvLastTick srv))) chs),
                        srvLastTick srv - 600), srv', calls)))"
proof (intro conjI impI)
  assume a: "metrics srv ty name = Some me \<and> ringsOk me
               \<and> length (liveLog me) = length (metricTypes reg ty)"
  then have ge: "getMetricEntry reg srv ty name = Inr (me, srv, [])"
    using nm run by (simp add: getMetricEntry_existing)
  from a show "\<exists>rows. LiveLog reg srv name chs = (Return (rows, lastTick me - 600), srv, [])
             \<and> length rows = 600
             \<and> (\<forall>k<600. rows ! k = ringRow me (map (getChannelIndex reg ty) chs) k)"
    using LiveLog_of_entry [OF ty ge ch] by simp
next
  assume a: "ringsOk me \<and> length (liveLog me) = length (metricTypes reg ty)
               \<and> updateLiveLog me ts data = Some me'"
  then have ok: "ringsOk me" and len: "length (liveLog me) = length (metricTypes reg ty)"
    and up: "updateLiveLog me ts data = Some me'" by simp_all
  have ix: "list_all (\<lambda>c. 0 \<le> c \<and> c < int (length (liveLog me))) (map (getChannelIndex reg ty) chs)"
    using ch by (simp add: channelsOk_def list_all_iff len)
  show "ringsOk me'" using up ok by (rule updateLiveLog_ringsOk)
  show "length (liveLog me') = length (metricTypes reg ty)"
    using updateLiveLog_fields(3) [OF up ok] len by simp
  show "lastTick me' = ts" using up ok by (rule updateLiveLog_fields(2))
  show "ringRow me' (map (getChannelIndex reg ty) chs) 599
          = map (\<lambda>n. data ! nat (getChannelIndex reg ty n)) chs"
    using tick_ringRow(1) [OF up ok ix] by (simp add: comp_def)
  show "\<forall>k<599. ringRow me' (map (getChannelIndex reg ty) chs) k
                  = ringRow me (map (getChannelIndex reg ty) chs) (k + 1)"
    using up ok ix by (rule tick_ringRow(2))
next
  assume a: "metrics srv ty name = None"
  let ?me = "fst (createMetricEntry reg srv ty name)"
  let ?row = "map (\<lambda>n. fst (channelDefault srv name
                (metricTypes reg ty ! nat (getChannelIndex reg ty n)) (srvLastTick srv))) chs"
  note ge = getMetricEntry_fresh [OF nm run a]
  have len: "length (liveLog ?me) = length (metricTypes reg ty)"
    by (simp add: createMetricEntry_fields)
  from LiveLog_of_entry [OF ty ge ch len createMetricEntry_ringsOk]
  obtain rows srv' calls where
    eq: "LiveLog reg srv name chs = (Return (rows, lastTick ?me - 600), srv', calls)"
    and l: "length rows = 600"
    and r: "\<forall>k<600. rows ! k = ringRow ?me (map (getChannelIndex reg ty) chs) k"
    by blast
  have "rows = replicate 600 ?row"
  proof (rule nth_equalityI)
    show "length rows = length (replicate 600 ?row)" using l by simp
    fix k assume "k < length rows"
    then have k: "k < 600" using l by simp
    with r have "rows ! k = ringRow ?me (map (getChannelIndex reg ty) chs) k" by simp
    also have "\<dots> = ?row" using ch k by (rule fresh_ringRow)
    finally show "rows ! k = replicate 600 ?row ! k" using k by simp
  qed
  with eq show "\<exists>srv' calls. LiveLog reg srv name chs
             = (Return (replicate 600 ?row, srvLastTick srv - 600), srv', calls)"
    by (simp add: createMetricEntry_fields)
qed

lemma exGauge_entry:
  "fst (createMetricEntry exRegistry (exServer 1000) Gauge ''g'')
     = \<lparr>me_type = Gauge, me_name = ''g'', recvdInput = False, recvdInputTick = False,
        idleTicks = 0, liveLog = [replicate 600 (Fin 0)], livePtr = 0, lastTick = 1000,
        watchers = []\<rparr>"
  by (simp add: createMetricEntry_def exRegistry_def exServer_def exDatastore_def
      channelDefault_def LiveLogSize_def)

text \<open>
  The gauge of the specification that has never been written: 600 rows of the default 0
  and the start timestamp \<open>1000 - 600\<close>; after one tick with the value 5 the last row
  holds 5.
\<close>

theorem LiveLog_chronological_witness:
  "fst (LiveLog exRegistry (exServer 1000) ''g'' [''value'']) = Return (replicate 600 [Fin 0], 400)
   \<and> (\<exists>me'. updateLiveLog (fst (createMetricEntry exRegistry (exServer 1000) Gauge ''g'')) 1001 [Fin 5]
               = Some me'
          \<and> lastTick me' = 1001 \<and> ringRow me' [0] 599 = [Fin 5] \<and> ringRow me' [0] 0 = [Fin 0])"
proof -
  let ?me = "fst (createMetricEntry exRegistry (exServer 1000) Gauge ''g'')"
  have ty: "metricTypeByChannels exRegistry [''value''] = Inr Gauge" by (simp add: exRegistry_def)
  have ch: "channelsOk exRegistry Gauge [''value'']" by (simp add: channelsOk_def exRegistry_def)
  have nm: "CheckMetricName exRegistry ''g'' = None" by (simp add: exRegistry_def)
  have run: "running (exServer 1000)" by (simp add: exServer_def)
  have none: "metrics (exServer 1000) Gauge ''g'' = None" by (simp add: exServer_def)
  have ok: "ringsOk ?me" by (simp add: exGauge_entry ringsOk_def LiveLogSize_def)
  have len: "length (liveLog ?me) = length (metricTypes exRegistry Gauge)"
    by (simp only: exGauge_entry) (simp add: exRegistry_def)
  obtain me' where up: "updateLiveLog ?me 1001 [Fin 5] = Some me'"
    by (simp add: exGauge_entry updateLiveLog_def LiveLogSize_def)
  note th = LiveLog_chronological [OF ty ch nm run, of ?me 1001 "[Fin 5]" me']
  from th none have "\<exists>srv' calls. LiveLog exRegistry (exServer 1000) ''g'' [''value'']
      = (Return (replicate 600 [Fin 0], 400), srv', calls)"
    by (simp add: exRegistry_def exServer_def exDatastore_def channelDefault_def)
  then have a: "fst (LiveLog exRegistry (exServer 1000) ''g'' [''value''])
      = Return (replicate 600 [Fin 0], 400)" by auto
  from th ok len up have b: "lastTick me' = 1001"
    "ringRow me' (map (getChannelIndex exRegistry Gauge) [''value'']) 599 = [Fin 5]"
    "ringRow me' (map (getChannelIndex exRegistry Gauge) [''value'']) 0
       = ringRow ?me (map (getChannelIndex exRegistry Gauge) [''value'']) 1"
    by (simp_all add: exRegistry_def)
  have "ringRow ?me [0] 1 = [Fin 0]" by (simp add: ringRow_def exGauge_entry LiveLogSize_def)
  with a b up show ?thesis by (simp add: exRegistry_def)
qed






lemma Log_entry:
  assumes "Log reg srv name chs from len gran = (Return rows, srv', calls)"
  shows "go_mod from 60 = 0 \<and> 1 \<le> gran \<and> go_mod gran 60 = 0 \<and> 0 \<le> len \<and>
         (\<exists>ty me srv1 c1. metricTypeByChannels reg chs = Inr ty \<and>
            getMetricEntry reg srv ty name = Inr (me, srv1, c1))"
  using assms by (auto simp: Log_def split: if_splits sum.splits)







section \<open>Properties of the datastore\<close>

























lemma minTs_val: "minTs = - 9223372036854775800"
  by (simp add: minTs_def smod_int_alt_def)

lemma exStoredDs_val:
  "exStoredDs = \<lparr>fs_running = True,
      fs_streams = [''s'' \<mapsto> \<lparr>st_tail = [], st_valid = True, st_lastWr = 120, st_dsize = 24, st_isize = 16\<rparr>],
      fs_disk = (\<lambda>n. noFiles)(''s'' := \<lparr>f_dat = [Fin 1, Fin 2, Fin 3], f_dat_rest = 0, f_idx = [(0, 0)], f_idx_rest = 0\<rparr>),
      fs_tail_data = None\<rparr>"
  by (simp add: exStoredDs_def exEmptyDs_def Insert_def getStream_def newStream_def writerTurn_def
      writeTail_def openFiles_def noFiles_def datSize_def idxSize_def writeRecord_def minTs_val
      Let_def smod_int_alt_def)

lemma exSnapshot:
  "makeSnapshot exStoredDs ''s''
     = (Inr \<lparr>s_tail = [],
              s_files = \<lparr>f_dat = [Fin 1, Fin 2, Fin 3], f_dat_rest = 0, f_idx = [(0, 0)], f_idx_rest = 0\<rparr>,
              s_lastWr = 120, s_dsize = 24, s_isize = 16\<rparr>, exStoredDs)"
  by (simp add: exStoredDs_val makeSnapshot_def getStream_def streamSnapshot_def openFiles_def)

text \<open>
  Claim C3 does not hold of the code.  With the records of the minutes 0, 60 and 120 on
  disk in one index segment, \<open>LatestBefore(s, 60)\<close> returns the record of minute 120:
  the search on disk takes the last record of the segment found, whatever \<open>ts\<close> is.
\<close>

theorem LatestBefore_returns_later_record:
  "fst (LatestBefore exStoredDs ''s'' 60) = Return (120, Fin 3)"
  by (simp add: LatestBefore_def exSnapshot snapLatestBefore_def findTail_def findIdx_def
      readIdxEntry_def readDat_def at_index_def findIdxLoop.simps Let_def smod_int_alt_def
      signed_divide_int_def)

text \<open>
  Claim C1 does not hold of the code.  After three records have been inserted and
  written, \<open>Query\<close> over a window that holds two of them returns the empty list.
\<close>

theorem Query_returns_no_record:
  "fst (Query exStoredDs ''s'' 0 121) = Return []
   \<and> f_dat (fs_disk exStoredDs ''s'') = [Fin 1, Fin 2, Fin 3]
   \<and> f_idx (fs_disk exStoredDs ''s'') = [(0, 0)]"
  by (simp add: Query_def exSnapshot) (simp add: exStoredDs_val)







section \<open>Properties of the timer metric\<close>


























end
